theory Spec2Isabelle
  imports Complex_Main "HOL-Library.Sublist"
begin

section \<open>Python values\<close>

text \<open>
  A Python \<open>str\<close> is a sequence of Unicode code points. The separator of the title
  (U+2014) and the white space removed by \<open>str.strip\<close> lie outside one byte, so a
  string is a list of code points here, not a list of \<open>char\<close>.
\<close>

type_synonym pystr = "nat list"

definition S :: "string \<Rightarrow> pystr" where
  "S s = map of_char s"

text \<open>\<open>sub in s\<close> on two strings: \<open>sub\<close> occurs in \<open>s\<close> as a contiguous run.\<close>

fun str_contains :: "pystr \<Rightarrow> pystr \<Rightarrow> bool" where
  "str_contains sub [] = (sub = [])"
| "str_contains sub (c # cs) = (prefix sub (c # cs) \<or> str_contains sub cs)"

text \<open>\<open>str.isspace\<close> of one code point (the Unicode white space of CPython).\<close>

definition py_isspace :: "nat \<Rightarrow> bool" where
  "py_isspace c \<longleftrightarrow>
     (9 \<le> c \<and> c \<le> 13) \<or> (28 \<le> c \<and> c \<le> 32) \<or> c = 133 \<or> c = 160 \<or> c = 5760 \<or>
     (8192 \<le> c \<and> c \<le> 8202) \<or> c = 8232 \<or> c = 8233 \<or> c = 8239 \<or> c = 8287 \<or>
     c = 12288"

definition str_strip :: "pystr \<Rightarrow> pystr" where
  "str_strip s = rev (dropWhile py_isspace (rev (dropWhile py_isspace s)))"

text \<open>\<open>s.split(sep)\<close> for a separator of one code point; the result is never empty.\<close>

fun str_split :: "nat \<Rightarrow> pystr \<Rightarrow> pystr list" where
  "str_split sep [] = [] # []"
| "str_split sep (c # cs) =
     (if c = sep then [] # str_split sep cs
      else (case str_split sep cs of
              [] \<Rightarrow> [c] # []
            | seg # segs \<Rightarrow> (c # seg) # segs))"

definition EM_DASH :: nat where
  "EM_DASH = 8212"

text \<open>
  The tree that BeautifulSoup builds: a text node (a \<open>NavigableString\<close>, itself a
  \<open>str\<close>) or a tag with its name, the tokens of its \<open>class\<close> attribute, its
  \<open>href\<close> attribute when it has one, and its children in document order.
\<close>

datatype node =
    NavigableString pystr
  | Tag pystr "pystr list" "pystr option" "node list"

text \<open>
  The values a Python variable of this program holds: what \<open>json.load\<close> returns,
  and the elements of a parsed document.
\<close>

datatype pyval =
    PNone
  | PBool bool
  | PInt int
  | PFloat real
  | PStr pystr
  | PList "pyval list"
  | PDict "(pystr \<times> pyval) list"
  | PTag node

text \<open>\<open>isinstance\<close>; \<open>bool\<close> is a subclass of \<open>int\<close>.\<close>

fun is_list :: "pyval \<Rightarrow> bool" where
  "is_list (PList _) = True"
| "is_list _ = False"

fun is_str :: "pyval \<Rightarrow> bool" where
  "is_str (PStr _) = True"
| "is_str _ = False"

fun is_bool :: "pyval \<Rightarrow> bool" where
  "is_bool (PBool _) = True"
| "is_bool _ = False"

fun is_int :: "pyval \<Rightarrow> bool" where
  "is_int (PInt _) = True"
| "is_int (PBool _) = True"
| "is_int _ = False"

fun is_dict :: "pyval \<Rightarrow> bool" where
  "is_dict (PDict _) = True"
| "is_dict _ = False"

text \<open>The number an \<open>int\<close> (or a \<open>bool\<close>) stands for in a comparison.\<close>

fun int_of :: "pyval \<Rightarrow> int" where
  "int_of (PInt i) = i"
| "int_of (PBool b) = (if b then 1 else 0)"
| "int_of _ = 0"

fun str_of :: "pyval \<Rightarrow> pystr" where
  "str_of (PStr s) = s"
| "str_of _ = []"

fun items_of :: "pyval \<Rightarrow> pyval list" where
  "items_of (PList xs) = xs"
| "items_of _ = []"

fun dict_of :: "pyval \<Rightarrow> (pystr \<times> pyval) list" where
  "dict_of (PDict kvs) = kvs"
| "dict_of _ = []"

fun bool_of :: "pyval \<Rightarrow> bool" where
  "bool_of (PBool b) = b"
| "bool_of _ = False"

section \<open>Exceptions\<close>

datatype exn =
    IncorrectEncodingError
  | IncorrectHeadersError
  | IncorrectNumberOfArticlesError
  | IncorrectSeedURLError
  | IncorrectTimeoutError
  | IncorrectVerifyError
  | NumberOfArticlesOutOfRangeError
  | AttributeError
  | IndexError
  | RequestException
  | FileNotFoundError
  | FileExistsError
  | NotADirectoryError
  | OSError

section \<open>Config\<close>

text \<open>
  Modelled from the spec: \<open>ConfigDTO\<close> of \<open>core_utils.config_dto\<close> is not among
  the sources. It holds the seven deserialized values of the configuration unchanged;
  any of them may be any JSON value.
\<close>

record ConfigDTO =
  dto_seed_urls :: pyval
  dto_total_articles :: pyval
  dto_headers :: pyval
  dto_encoding :: pyval
  dto_timeout :: pyval
  dto_should_verify_certificate :: pyval
  dto_headless_mode :: pyval

definition SITE :: pystr where
  "SITE = S ''http://vzm-vesti.ru/''"

text \<open>The loop over the seed urls of \<open>_validate_config_content\<close>.\<close>

fun validate_seed_urls :: "pyval list \<Rightarrow> exn option" where
  "validate_seed_urls [] = None"
| "validate_seed_urls (url # urls) =
     (if \<not> is_str url \<or> \<not> str_contains SITE (str_of url)
      then Some IncorrectSeedURLError
      else validate_seed_urls urls)"

text \<open>\<open>Config._validate_config_content\<close>: the exception raised, or \<open>None\<close>.\<close>

definition validate_config_content :: "ConfigDTO \<Rightarrow> exn option" where
  "validate_config_content c =
     (if \<not> is_list (dto_seed_urls c) then Some IncorrectSeedURLError
      else case validate_seed_urls (items_of (dto_seed_urls c)) of
        Some e \<Rightarrow> Some e
      | None \<Rightarrow>
        if \<not> is_int (dto_total_articles c) \<or> int_of (dto_total_articles c) \<le> 0
        then Some IncorrectNumberOfArticlesError
        else if int_of (dto_total_articles c) < 0 \<or> int_of (dto_total_articles c) > 150
        then Some NumberOfArticlesOutOfRangeError
        else if \<not> is_dict (dto_headers c) then Some IncorrectHeadersError
        else if \<not> is_str (dto_encoding c) then Some IncorrectEncodingError
        else if \<not> is_int (dto_timeout c) \<or> int_of (dto_timeout c) \<le> 0
                \<or> int_of (dto_timeout c) > 60
        then Some IncorrectTimeoutError
        else if \<not> is_bool (dto_should_verify_certificate c)
                \<or> \<not> is_bool (dto_headless_mode c)
        then Some IncorrectVerifyError
        else None)"

text \<open>
  A constructed \<open>Config\<close>. The fields have the types the getters declare; the
  validation has established them when the constructor returns.
\<close>

record Config =
  seed_urls :: "pystr list"
  num_articles :: int
  headers :: "(pystr \<times> pyval) list"
  encoding :: pystr
  timeout :: int
  should_verify_certificate :: bool
  headless_mode :: bool

text \<open>\<open>Config.__init__\<close> on the extracted content: it raises, or the object exists.\<close>

definition Config_init :: "ConfigDTO \<Rightarrow> exn + Config" where
  "Config_init c =
     (case validate_config_content c of
        Some e \<Rightarrow> Inl e
      | None \<Rightarrow> Inr \<lparr>
          seed_urls = map str_of (items_of (dto_seed_urls c)),
          num_articles = int_of (dto_total_articles c),
          headers = dict_of (dto_headers c),
          encoding = str_of (dto_encoding c),
          timeout = int_of (dto_timeout c),
          should_verify_certificate = bool_of (dto_should_verify_certificate c),
          headless_mode = bool_of (dto_headless_mode c) \<rparr>)"

section \<open>Searching a parsed document\<close>

text \<open>Every node below a tag, in document order (\<open>Tag.descendants\<close>).\<close>

fun descendants :: "node \<Rightarrow> node list" where
  "descendants (NavigableString s) = []"
| "descendants (Tag n cs h ks) = concat (map (\<lambda>k. k # descendants k) ks)"

text \<open>\<open>Tag.text\<close>: the strings below a node, concatenated with no separator.\<close>

fun get_text :: "node \<Rightarrow> pystr" where
  "get_text (NavigableString s) = s"
| "get_text (Tag n cs h ks) = concat (map get_text ks)"

fun join_spaces :: "pystr list \<Rightarrow> pystr" where
  "join_spaces [] = []"
| "join_spaces [c] = c"
| "join_spaces (c # d # cs) = c @ 32 # join_spaces (d # cs)"

text \<open>
  The \<open>class_\<close> filter of BeautifulSoup: one of the tokens of the \<open>class\<close>
  attribute is the wanted string, or the whole attribute is.
\<close>

definition class_matches :: "pystr \<Rightarrow> pystr list \<Rightarrow> bool" where
  "class_matches c cs \<longleftrightarrow> c \<in> set cs \<or> join_spaces cs = c"

fun matches :: "pystr \<Rightarrow> pystr option \<Rightarrow> node \<Rightarrow> bool" where
  "matches nm cls (NavigableString s) = False"
| "matches nm cls (Tag n cs h ks) =
     (n = nm \<and> (case cls of None \<Rightarrow> True | Some c \<Rightarrow> class_matches c cs))"

definition find_all :: "pystr \<Rightarrow> pystr option \<Rightarrow> node \<Rightarrow> node list" where
  "find_all nm cls t = filter (matches nm cls) (descendants t)"

text \<open>\<open>find\<close> is the first result of \<open>find_all\<close>, or \<open>None\<close>.\<close>

definition find_first :: "pystr \<Rightarrow> pystr option \<Rightarrow> node \<Rightarrow> node option" where
  "find_first nm cls t = (case find_all nm cls t of [] \<Rightarrow> None | x # _ \<Rightarrow> Some x)"

text \<open>\<open>link.get('href')\<close>: the attribute, or \<open>None\<close> when the tag has none.\<close>

fun get_href :: "node \<Rightarrow> pystr option" where
  "get_href (NavigableString s) = None"
| "get_href (Tag n cs h ks) = h"

section \<open>The network\<close>

text \<open>
  A url as the crawler holds it: the \<open>href\<close> of an anchor, \<open>None\<close> when the
  anchor has none.
\<close>

type_synonym link = "pystr option"

text \<open>
  The site: for the url given to \<open>requests.get\<close>, the exception it raises or the
  document that BeautifulSoup builds from the response's text.
\<close>

type_synonym web = "link \<Rightarrow> exn + node"

text \<open>
  \<open>make_request\<close> followed by the parse of the response. The request is recorded in
  the list of the requests issued so far; the random pause before it changes no value.
\<close>

definition make_request :: "web \<Rightarrow> link \<Rightarrow> link list \<Rightarrow> (exn + node) \<times> link list" where
  "make_request w u reqs = (w u, reqs @ [u])"

section \<open>Crawler\<close>

record Crawler =
  config :: Config
  urls :: "link list"

definition Crawler_init :: "Config \<Rightarrow> Crawler" where
  "Crawler_init c = \<lparr> config = c, urls = [] \<rparr>"

text \<open>
  \<open>Crawler._extract_url\<close>: \<open>find\<close> gives \<open>None\<close> when no heading carries the
  class, and \<open>None.find_all\<close> raises.
\<close>

definition extract_url :: "node \<Rightarrow> exn + link list" where
  "extract_url article_bs =
     (case find_first (S ''h2'') (Some (S ''post-title entry-title'')) article_bs of
        None \<Rightarrow> Inl AttributeError
      | Some h2_articles \<Rightarrow> Inr (map get_href (find_all (S ''a'') None h2_articles)))"

text \<open>
  The inner loop of \<open>find_articles\<close> over the links of one seed page. The flag
  tells whether the \<open>return\<close> was reached.
\<close>

fun add_urls :: "int \<Rightarrow> link list \<Rightarrow> link list \<Rightarrow> bool \<times> link list" where
  "add_urls n [] us = (False, us)"
| "add_urls n (u # url_list) us =
     (let us' = (if u \<notin> set us then us @ [u] else us)
      in if int (length us') \<ge> n then (True, us') else add_urls n url_list us')"

text \<open>
  The outer loop over the seed urls: the exception that ends it or the frontier, and
  the requests issued.
\<close>

fun crawl_seeds ::
  "web \<Rightarrow> int \<Rightarrow> pystr list \<Rightarrow> link list \<Rightarrow> link list \<Rightarrow> (exn + link list) \<times> link list"
where
  "crawl_seeds w n [] us reqs = (Inr us, reqs)"
| "crawl_seeds w n (seed_url # seeds) us reqs =
     (case make_request w (Some seed_url) reqs of
        (Inl e, reqs') \<Rightarrow> (Inl e, reqs')
      | (Inr soup, reqs') \<Rightarrow>
          (case extract_url soup of
             Inl e \<Rightarrow> (Inl e, reqs')
           | Inr url_list \<Rightarrow>
               if length url_list \<noteq> 0 then
                 (case add_urls n url_list us of
                    (True, us') \<Rightarrow> (Inr us', reqs')
                  | (False, us') \<Rightarrow> crawl_seeds w n seeds us' reqs')
               else crawl_seeds w n seeds us reqs'))"

definition find_articles :: "web \<Rightarrow> Crawler \<Rightarrow> link list \<Rightarrow> (exn + Crawler) \<times> link list" where
  "find_articles w cr reqs =
     (case crawl_seeds w (num_articles (config cr)) (seed_urls (config cr)) (urls cr) reqs of
        (Inl e, reqs') \<Rightarrow> (Inl e, reqs')
      | (Inr us, reqs') \<Rightarrow> (Inr (cr\<lparr>urls := us\<rparr>), reqs'))"

section \<open>HTMLParser\<close>

text \<open>
  Modelled from the spec: \<open>Article\<close> of \<open>core_utils.article.article\<close> is not among
  the sources. A new record owns its url and identifier; its title and body text are
  empty and it has no author yet.
\<close>

record Article =
  a_url :: link
  a_article_id :: int
  a_title :: pystr
  a_author :: pyval
  a_text :: pystr

definition Article_init :: "link \<Rightarrow> int \<Rightarrow> Article" where
  "Article_init u i =
     \<lparr> a_url = u, a_article_id = i, a_title = [], a_author = PList [], a_text = [] \<rparr>"

record HTMLParser =
  full_url :: link
  article_id :: int
  p_config :: Config
  article :: Article

definition HTMLParser_init :: "link \<Rightarrow> int \<Rightarrow> Config \<Rightarrow> HTMLParser" where
  "HTMLParser_init u i c =
     \<lparr> full_url = u, article_id = i, p_config = c, article = Article_init u i \<rparr>"

text \<open>\<open>_fill_article_with_text\<close>: the loop appends to the text the article has.\<close>

definition fill_article_with_text :: "node \<Rightarrow> Article \<Rightarrow> Article" where
  "fill_article_with_text article_soup a =
     a\<lparr>a_text := foldl (\<lambda>t p. t @ get_text p) (a_text a) (find_all (S ''p'') None article_soup)\<rparr>"

text \<open>
  What \<open>+=\<close> appends to a list: the items its right operand yields when iterated,
  the characters of a string, the children of a tag.
\<close>

definition iter_str :: "pystr \<Rightarrow> pyval list" where
  "iter_str s = map (\<lambda>c. PStr [c]) s"

fun iter_node :: "node \<Rightarrow> pyval list" where
  "iter_node (NavigableString s) = iter_str s"
| "iter_node (Tag n cs h ks) =
     map (\<lambda>k. case k of NavigableString s \<Rightarrow> PStr s | Tag _ _ _ _ \<Rightarrow> PTag k) ks"

text \<open>
  \<open>_fill_article_with_meta_information\<close>. \<open>title.text\<close> raises when the document
  has no title element.
\<close>

definition fill_article_with_meta_information :: "node \<Rightarrow> Article \<Rightarrow> exn + Article" where
  "fill_article_with_meta_information article_soup a =
     (case find_first (S ''title'') None article_soup of
        None \<Rightarrow> Inl AttributeError
      | Some title \<Rightarrow>
          (case str_split EM_DASH (get_text title) of
             [] \<Rightarrow> Inl IndexError
           | title1 # _ \<Rightarrow>
               (let a1 = a\<lparr>a_title := str_strip title1\<rparr>;
                    a2 = a1\<lparr>a_author := PList []\<rparr>
                in case find_first (S ''p'') (Some (S ''bio-name'')) article_soup of
                     None \<Rightarrow>
                       Inr (a2\<lparr>a_author :=
                              PList (items_of (a_author a2) @ iter_str (S ''NOT FOUND''))\<rparr>)
                   | Some author \<Rightarrow>
                       Inr (a2\<lparr>a_author :=
                              PList (items_of (a_author a2) @ iter_node author)\<rparr>))))"

text \<open>
  \<open>HTMLParser.parse\<close>: the parser with its article filled, or the exception, and the
  requests issued.
\<close>

definition parse :: "web \<Rightarrow> HTMLParser \<Rightarrow> link list \<Rightarrow> (exn + HTMLParser) \<times> link list" where
  "parse w p reqs =
     (case make_request w (full_url p) reqs of
        (Inl e, reqs') \<Rightarrow> (Inl e, reqs')
      | (Inr article_bs, reqs') \<Rightarrow>
          (case fill_article_with_meta_information article_bs
                  (fill_article_with_text article_bs (article p)) of
             Inl e \<Rightarrow> (Inl e, reqs')
           | Inr a \<Rightarrow> (Inr (p\<lparr>article := a\<rparr>), reqs')))"

section \<open>The output area\<close>

text \<open>
  The file system as \<open>pathlib\<close> and \<open>shutil\<close> see it: a path is the list of its
  components below the root (the root is the empty list), and each path is absent, a
  regular file or a directory.
\<close>

type_synonym path = "pystr list"

datatype entry = File | Dir

type_synonym filesystem = "path \<Rightarrow> entry option"

definition path_exists :: "filesystem \<Rightarrow> path \<Rightarrow> bool" where
  "path_exists fs p \<longleftrightarrow> fs p \<noteq> None"

text \<open>
  \<open>shutil.rmtree\<close>: the directory and everything below it go; it raises on a path
  that is not a directory, and the root cannot be removed.
\<close>

definition rmtree :: "filesystem \<Rightarrow> path \<Rightarrow> exn + filesystem" where
  "rmtree fs p =
     (case fs p of
        None \<Rightarrow> Inl FileNotFoundError
      | Some File \<Rightarrow> Inl NotADirectoryError
      | Some Dir \<Rightarrow>
          if p = [] then Inl OSError
          else Inr (\<lambda>q. if prefix p q then None else fs q))"

text \<open>
  \<open>Path.mkdir(parents=True)\<close>: it raises when the path exists or when a component
  above it is a regular file; otherwise the path and its missing parents become
  directories.
\<close>

definition mkdir_parents :: "filesystem \<Rightarrow> path \<Rightarrow> exn + filesystem" where
  "mkdir_parents fs p =
     (if fs p \<noteq> None then Inl FileExistsError
      else if list_ex (\<lambda>q. fs q = Some File) (prefixes p) then Inl NotADirectoryError
      else Inr (\<lambda>q. if prefix q p \<and> fs q = None then Some Dir else fs q))"

definition prepare_environment :: "filesystem \<Rightarrow> path \<Rightarrow> exn + filesystem" where
  "prepare_environment fs base_path =
     (case (if path_exists fs base_path then rmtree fs base_path else Inr fs) of
        Inl e \<Rightarrow> Inl e
      | Inr fs1 \<Rightarrow> mkdir_parents fs1 base_path)"

section \<open>The driver\<close>

text \<open>
  The two operations of \<open>core_utils.article.io\<close> that \<open>main\<close> calls. Each call is
  recorded with the article it was given; the sink tells which calls raise.
\<close>

datatype sink_call = ToRaw Article | ToMeta Article

type_synonym sink = "sink_call \<Rightarrow> exn option"

record world =
  requests :: "link list"
  files :: filesystem
  stored :: "sink_call list"

text \<open>
  The loop of \<open>main\<close> over the frontier, with the identifier the next article gets.
  The result is the exception that ended the loop, if one did.
\<close>

fun process_urls ::
  "web \<Rightarrow> sink \<Rightarrow> Config \<Rightarrow> int \<Rightarrow> link list \<Rightarrow> world \<Rightarrow> exn option \<times> world"
where
  "process_urls w snk cfg aid [] st = (None, st)"
| "process_urls w snk cfg aid (u # us) st =
     (case parse w (HTMLParser_init u aid cfg) (requests st) of
        (Inl e, reqs) \<Rightarrow> (Some e, st\<lparr>requests := reqs\<rparr>)
      | (Inr parser, reqs) \<Rightarrow>
          (let st1 = st\<lparr>requests := reqs, stored := stored st @ [ToRaw (article parser)]\<rparr>
           in case snk (ToRaw (article parser)) of
                Some e \<Rightarrow> (Some e, st1)
              | None \<Rightarrow>
                  (let st2 = st1\<lparr>stored := stored st1 @ [ToMeta (article parser)]\<rparr>
                   in case snk (ToMeta (article parser)) of
                        Some e \<Rightarrow> (Some e, st2)
                      | None \<Rightarrow> process_urls w snk cfg (aid + 1) us st2)))"

text \<open>
  \<open>main\<close>, given the content of the configuration file and the path of the output
  area (the constants \<open>CRAWLER_CONFIG_PATH\<close> and \<open>ASSETS_PATH\<close> of
  \<open>core_utils.constants\<close>).
\<close>

definition main :: "ConfigDTO \<Rightarrow> path \<Rightarrow> web \<Rightarrow> sink \<Rightarrow> world \<Rightarrow> exn option \<times> world" where
  "main dto assets_path w snk st =
     (case Config_init dto of
        Inl e \<Rightarrow> (Some e, st)
      | Inr configuration \<Rightarrow>
          (case find_articles w (Crawler_init configuration) (requests st) of
             (Inl e, reqs) \<Rightarrow> (Some e, st\<lparr>requests := reqs\<rparr>)
           | (Inr crawler, reqs) \<Rightarrow>
               (case prepare_environment (files st) assets_path of
                  Inl e \<Rightarrow> (Some e, st\<lparr>requests := reqs\<rparr>)
                | Inr fs \<Rightarrow>
                    process_urls w snk configuration 1 (urls crawler)
                      (st\<lparr>requests := reqs, files := fs\<rparr>))))"




section \<open>Auxiliary notions for the statements\<close>

text \<open>
  The links of \<open>ls\<close> in the order of their first occurrence, leaving out those
  already in \<open>seen\<close>.
\<close>

fun first_occurrences :: "'a list \<Rightarrow> 'a list \<Rightarrow> 'a list" where
  "first_occurrences seen [] = []"
| "first_occurrences seen (x # xs) =
     (if x \<in> set seen then first_occurrences seen xs
      else x # first_occurrences (seen @ [x]) xs)"

text \<open>A listing page: one heading with the class of the post titles, holding anchors.\<close>

definition listing_page :: "link list \<Rightarrow> node" where
  "listing_page hrefs =
     Tag (S ''html'') [] None
       [Tag (S ''h2'') [S ''post-title'', S ''entry-title''] None
          (map (\<lambda>h. Tag (S ''a'') [] h []) hrefs)]"

text \<open>An article page with a title, an optional author paragraph and body paragraphs.\<close>

definition article_page :: "pystr \<Rightarrow> pystr option \<Rightarrow> pystr list \<Rightarrow> node" where
  "article_page ttl author paras =
     Tag (S ''html'') [] None
       ([Tag (S ''title'') [] None [NavigableString ttl]]
        @ (case author of
             None \<Rightarrow> []
           | Some nm \<Rightarrow> [Tag (S ''p'') [S ''bio-name''] None [NavigableString nm]])
        @ map (\<lambda>t. Tag (S ''p'') [] None [NavigableString t]) paras)"

definition example_dto :: ConfigDTO where
  "example_dto =
     \<lparr> dto_seed_urls = PList [PStr (S ''http://vzm-vesti.ru/news'')],
       dto_total_articles = PInt 3,
       dto_headers = PDict [],
       dto_encoding = PStr (S ''utf-8''),
       dto_timeout = PInt 5,
       dto_should_verify_certificate = PBool True,
       dto_headless_mode = PBool False \<rparr>"

definition example_config :: "int \<Rightarrow> pystr list \<Rightarrow> Config" where
  "example_config n seeds =
     \<lparr> seed_urls = seeds, num_articles = n, headers = [], encoding = S ''utf-8'',
       timeout = 5, should_verify_certificate = True, headless_mode = False \<rparr>"

section \<open>The frontier\<close>

lemma add_urls_eq:
  "int (length us) < n \<Longrightarrow>
   add_urls n ls us =
     (n \<le> int (length us + length (first_occurrences us ls)),
      us @ take (nat n - length us) (first_occurrences us ls))"
proof (induction ls arbitrary: us)
  case Nil
  then show ?case by simp
next
  case (Cons u ls)
  show ?case
  proof (cases "u \<in> set us")
    case True
    with Cons show ?thesis by simp
  next
    case False
    show ?thesis
    proof (cases "n \<le> int (length us) + 1")
      case True
      with Cons.prems have "nat n - length us = 1" by linarith
      with False True show ?thesis by (simp add: Let_def)
    next
      case stop: False
      then have lt: "int (length (us @ [u])) < n" by simp
      have "nat n - length us = Suc (nat n - length (us @ [u]))" using stop by simp
      with Cons.IH[OF lt] False stop show ?thesis by (simp add: Let_def)
    qed
  qed
qed

lemma add_urls_stop_length:
  "add_urls n ls us = (True, us') \<Longrightarrow> n \<le> int (length us')"
  by (induction ls arbitrary: us) (auto simp: Let_def split: if_splits)

lemma add_urls_continue_length:
  "add_urls n ls us = (False, us') \<Longrightarrow> int (length us) < n \<Longrightarrow> int (length us') < n"
  by (induction ls arbitrary: us) (auto simp: Let_def split: if_splits)

lemma add_urls_bound:
  "add_urls n ls us = (b, us') \<Longrightarrow> int (length us) < n \<Longrightarrow> int (length us') \<le> n"
  by (induction ls arbitrary: us) (auto simp: Let_def split: if_splits)

lemma crawl_seeds_bound:
  "crawl_seeds w n seeds us reqs = (Inr us', reqs') \<Longrightarrow> int (length us) < n \<Longrightarrow>
   int (length us') \<le> n"
proof (induction seeds arbitrary: us reqs)
  case Nil
  then show ?case by simp
next
  case (Cons s seeds)
  then show ?case
    by (auto simp: make_request_def split: sum.splits if_splits prod.splits bool.splits
          dest: add_urls_bound add_urls_continue_length)
qed

lemma crawl_seeds_append:
  "crawl_seeds w n pre us reqs = (Inr us', reqs') \<Longrightarrow> int (length us') < n \<Longrightarrow>
   crawl_seeds w n (pre @ rest) us reqs = crawl_seeds w n rest us' reqs'"
proof (induction pre arbitrary: us reqs)
  case Nil
  then show ?case by simp
next
  case (Cons s pre)
  then show ?case
    by (auto simp: make_request_def split: sum.splits if_splits prod.splits bool.splits
          dest: add_urls_stop_length)
qed

lemma Config_init_num_articles:
  "Config_init dto = Inr cfg \<Longrightarrow> 0 < num_articles cfg \<and> num_articles cfg \<le> 150"
  by (auto simp: Config_init_def validate_config_content_def
        split: option.splits if_splits)

lemma descendants_listing_h2:
  "filter (matches (S ''a'') None) (concat (map (\<lambda>k. k # descendants k)
      (map (\<lambda>h. Tag (S ''a'') [] h []) hrefs))) = map (\<lambda>h. Tag (S ''a'') [] h []) hrefs"
  by (induction hrefs) auto

lemma S_h2_neq_a: "S ''h2'' \<noteq> S ''a''"
  by (simp add: S_def)

lemma extract_url_listing_page: "extract_url (listing_page hrefs) = Inr hrefs"
proof -
  have m: "\<And>h. \<not> matches (S ''h2'') (Some (S ''post-title entry-title''))
              (Tag (S ''a'') [] h [])"
    using S_h2_neq_a by auto
  have f: "filter (matches (S ''h2'') (Some (S ''post-title entry-title'')))
      (concat (map (\<lambda>k. k # descendants k) (map (\<lambda>h. Tag (S ''a'') [] h []) hrefs))) = []"
    by (induction hrefs) (use m in auto)
  have c: "class_matches (S ''post-title entry-title'') [S ''post-title'', S ''entry-title'']"
    by (simp add: class_matches_def S_def)
  have "find_first (S ''h2'') (Some (S ''post-title entry-title'')) (listing_page hrefs)
      = Some (Tag (S ''h2'') [S ''post-title'', S ''entry-title''] None
          (map (\<lambda>h. Tag (S ''a'') [] h []) hrefs))"
    using f c by (simp add: find_first_def find_all_def listing_page_def)
  then show ?thesis
    by (simp add: extract_url_def find_all_def descendants_listing_h2 comp_def)
qed

text \<open>
  C3. A seed page whose links are \<open>A, B, A, C\<close> (three different links), crawled
  first with target count 3, leaves the frontier \<open>A, B, C\<close> in that order: the second
  \<open>A\<close> is dropped and is not counted. In general the links of a page join the frontier
  in the order of their first occurrence, those already there left out.
\<close>

theorem find_articles_deduplicates:
  "(distinct [A, B, C] \<and> w (Some seed) = Inr soup \<and> extract_url soup = Inr [A, B, A, C]
      \<and> num_articles cfg = 3 \<and> seed_urls cfg = seed # seeds
    \<longrightarrow> find_articles w (Crawler_init cfg) reqs
          = (Inr \<lparr>config = cfg, urls = [A, B, C]\<rparr>, reqs @ [Some seed]))
   \<and> (int (length us) < n
    \<longrightarrow> snd (add_urls n ls us) = us @ take (nat n - length us) (first_occurrences us ls))"
  by (auto simp: find_articles_def Crawler_init_def make_request_def add_urls_eq)

theorem find_articles_deduplicates_witness:
  "find_articles (\<lambda>u. Inr (listing_page [Some (S ''/a''), Some (S ''/b''), Some (S ''/a''), Some (S ''/c'')]))
      (Crawler_init (example_config 3 [S ''http://vzm-vesti.ru/'']))  []
    = (Inr \<lparr>config = example_config 3 [S ''http://vzm-vesti.ru/''],
            urls = [Some (S ''/a''), Some (S ''/b''), Some (S ''/c'')]\<rparr>,
       [Some (S ''http://vzm-vesti.ru/'')])
   \<and> snd (add_urls 2 [Some (S ''/b''), Some (S ''/a''), Some (S ''/c'')] [Some (S ''/a'')])
      = [Some (S ''/a''), Some (S ''/b'')]"
  using find_articles_deduplicates
    [of "Some (S ''/a'')" "Some (S ''/b'')" "Some (S ''/c'')"
        "\<lambda>u. Inr (listing_page [Some (S ''/a''), Some (S ''/b''), Some (S ''/a''), Some (S ''/c'')])"
        "S ''http://vzm-vesti.ru/''"
        "listing_page [Some (S ''/a''), Some (S ''/b''), Some (S ''/a''), Some (S ''/c'')]"
        "example_config 3 [S ''http://vzm-vesti.ru/'']" "[]" "[]"
        "[Some (S ''/a'')]" 2 "[Some (S ''/b''), Some (S ''/a''), Some (S ''/c'')]"]
  by (simp add: extract_url_listing_page example_config_def S_def)
text \<open>
  C4. With target count 2 and a first seed page whose links are \<open>A, B, C\<close> (\<open>A\<close> and
  \<open>B\<close> different), the frontier is \<open>A, B\<close> whatever \<open>C\<close> is, and the only request
  issued is the one for that seed page: no later seed url is fetched. The frontier of a
  crawler with a validated configuration never has more urls than the target count.
\<close>

theorem find_articles_caps:
  "(A \<noteq> B \<and> w (Some seed) = Inr soup \<and> extract_url soup = Inr [A, B, C]
      \<and> num_articles cfg = 2 \<and> seed_urls cfg = seed # seeds
    \<longrightarrow> find_articles w (Crawler_init cfg) reqs
          = (Inr \<lparr>config = cfg, urls = [A, B]\<rparr>, reqs @ [Some seed]))
   \<and> (Config_init dto = Inr cfg' \<and> find_articles w' (Crawler_init cfg') reqs' = (Inr cr, reqs'')
    \<longrightarrow> int (length (urls cr)) \<le> num_articles cfg')"
proof (intro conjI impI)
  assume "A \<noteq> B \<and> w (Some seed) = Inr soup \<and> extract_url soup = Inr [A, B, C]
      \<and> num_articles cfg = 2 \<and> seed_urls cfg = seed # seeds"
  then show "find_articles w (Crawler_init cfg) reqs
          = (Inr \<lparr>config = cfg, urls = [A, B]\<rparr>, reqs @ [Some seed])"
    by (auto simp: find_articles_def Crawler_init_def make_request_def Let_def)
next
  assume h: "Config_init dto = Inr cfg' \<and>
    find_articles w' (Crawler_init cfg') reqs' = (Inr cr, reqs'')"
  then have pos: "int (length ([]::link list)) < num_articles cfg'"
    using Config_init_num_articles[of dto cfg'] by simp
  from h obtain us where c: "crawl_seeds w' (num_articles cfg') (seed_urls cfg') [] reqs'
      = (Inr us, reqs'')" and u: "urls cr = us"
    by (auto simp: find_articles_def Crawler_init_def split: prod.splits sum.splits)
  from crawl_seeds_bound[OF c pos] u show "int (length (urls cr)) \<le> num_articles cfg'"
    by simp
qed

lemma Config_init_example_dto:
  "Config_init example_dto = Inr (example_config 3 [S ''http://vzm-vesti.ru/news''])"
  by (simp add: Config_init_def validate_config_content_def example_dto_def
        example_config_def SITE_def S_def)

theorem find_articles_caps_witness:
  "find_articles
      (\<lambda>u. if u = Some (S ''http://vzm-vesti.ru/'')
            then Inr (listing_page [Some (S ''/a''), Some (S ''/b''), Some (S ''/c'')])
            else Inl RequestException)
      (Crawler_init (example_config 2 [S ''http://vzm-vesti.ru/'', S ''http://vzm-vesti.ru/2'']))
      []
    = (Inr \<lparr>config = example_config 2 [S ''http://vzm-vesti.ru/'', S ''http://vzm-vesti.ru/2''],
            urls = [Some (S ''/a''), Some (S ''/b'')]\<rparr>,
       [Some (S ''http://vzm-vesti.ru/'')])
   \<and> int (length (urls \<lparr>config = example_config 3 [S ''http://vzm-vesti.ru/news''],
            urls = [Some (S ''/a''), Some (S ''/b''), Some (S ''/c'')]\<rparr>))
      \<le> num_articles (example_config 3 [S ''http://vzm-vesti.ru/news''])"
  using find_articles_caps
    [of "Some (S ''/a'')" "Some (S ''/b'')"
        "\<lambda>u. if u = Some (S ''http://vzm-vesti.ru/'')
            then Inr (listing_page [Some (S ''/a''), Some (S ''/b''), Some (S ''/c'')])
            else Inl RequestException"
        "S ''http://vzm-vesti.ru/''"
        "listing_page [Some (S ''/a''), Some (S ''/b''), Some (S ''/c'')]"
        "Some (S ''/c'')"
        "example_config 2 [S ''http://vzm-vesti.ru/'', S ''http://vzm-vesti.ru/2'']"
        "[S ''http://vzm-vesti.ru/2'']" "[]"
        example_dto "example_config 3 [S ''http://vzm-vesti.ru/news'']"
        "\<lambda>u. Inr (listing_page [Some (S ''/a''), Some (S ''/b''), Some (S ''/c'')])"
        "[]"
        "\<lparr>config = example_config 3 [S ''http://vzm-vesti.ru/news''],
            urls = [Some (S ''/a''), Some (S ''/b''), Some (S ''/c'')]\<rparr>"
        "[Some (S ''http://vzm-vesti.ru/news'')]"]
    Config_init_example_dto
  by (simp add: extract_url_listing_page example_config_def S_def find_articles_def
        Crawler_init_def make_request_def)
text \<open>
  C7. A seed page with no heading of the post-title class makes \<open>_extract_url\<close> raise,
  and the crawl raises with it when it reaches that page: when the seed urls before it
  have been crawled without an exception and have left the frontier below the target
  count, the crawl ends with the exception, after the request for that page.
\<close>

theorem missing_listing_container_raises:
  "(find_first (S ''h2'') (Some (S ''post-title entry-title'')) soup = None
    \<longrightarrow> extract_url soup = Inl AttributeError)
   \<and> (find_first (S ''h2'') (Some (S ''post-title entry-title'')) soup = None
      \<and> w (Some seed) = Inr soup \<and> seed_urls cfg = pre @ seed # post
      \<and> crawl_seeds w (num_articles cfg) pre [] reqs = (Inr us, reqs')
      \<and> int (length us) < num_articles cfg
    \<longrightarrow> find_articles w (Crawler_init cfg) reqs = (Inl AttributeError, reqs' @ [Some seed]))"
proof (intro conjI impI)
  assume "find_first (S ''h2'') (Some (S ''post-title entry-title'')) soup = None"
  then show "extract_url soup = Inl AttributeError"
    by (simp add: extract_url_def)
next
  assume h: "find_first (S ''h2'') (Some (S ''post-title entry-title'')) soup = None
      \<and> w (Some seed) = Inr soup \<and> seed_urls cfg = pre @ seed # post
      \<and> crawl_seeds w (num_articles cfg) pre [] reqs = (Inr us, reqs')
      \<and> int (length us) < num_articles cfg"
  then have e: "extract_url soup = Inl AttributeError"
    by (simp add: extract_url_def)
  from h have "crawl_seeds w (num_articles cfg) (pre @ seed # post) [] reqs
      = crawl_seeds w (num_articles cfg) (seed # post) us reqs'"
    by (simp add: crawl_seeds_append)
  also have "\<dots> = (Inl AttributeError, reqs' @ [Some seed])"
    using h e by (simp add: make_request_def)
  finally show "find_articles w (Crawler_init cfg) reqs
      = (Inl AttributeError, reqs' @ [Some seed])"
    using h by (simp add: find_articles_def Crawler_init_def)
qed

lemma find_first_article_page_h2:
  "find_first (S ''h2'') (Some (S ''post-title entry-title''))
     (article_page (S ''News'') None []) = None"
  by (simp add: find_first_def find_all_def article_page_def S_def)

theorem missing_listing_container_raises_witness:
  "extract_url (article_page (S ''News'') None []) = Inl AttributeError
   \<and> find_articles
        (\<lambda>u. if u = Some (S ''http://vzm-vesti.ru/'')
              then Inr (listing_page [Some (S ''/a'')])
              else Inr (article_page (S ''News'') None []))
        (Crawler_init (example_config 3
           [S ''http://vzm-vesti.ru/'', S ''http://vzm-vesti.ru/2'', S ''http://vzm-vesti.ru/3'']))
        []
      = (Inl AttributeError, [Some (S ''http://vzm-vesti.ru/''), Some (S ''http://vzm-vesti.ru/2'')])"
  using missing_listing_container_raises
    [of "article_page (S ''News'') None []"
        "\<lambda>u. if u = Some (S ''http://vzm-vesti.ru/'')
              then Inr (listing_page [Some (S ''/a'')])
              else Inr (article_page (S ''News'') None [])"
        "S ''http://vzm-vesti.ru/2''"
        "example_config 3
           [S ''http://vzm-vesti.ru/'', S ''http://vzm-vesti.ru/2'', S ''http://vzm-vesti.ru/3'']"
        "[S ''http://vzm-vesti.ru/'']" "[S ''http://vzm-vesti.ru/3'']" "[]"
        "[Some (S ''/a'')]" "[Some (S ''http://vzm-vesti.ru/'')]"]
    find_first_article_page_h2
  by (simp add: extract_url_listing_page example_config_def S_def make_request_def)
section \<open>Configuration\<close>





section \<open>The article parser\<close>

lemma foldl_append_get_text:
  "foldl (\<lambda>t p. t @ get_text p) acc ps = acc @ concat (map get_text ps)"
  by (induction ps arbitrary: acc) auto

lemma a_text_fill_article_with_text:
  "a_text (fill_article_with_text soup a)
     = a_text a @ concat (map get_text (find_all (S ''p'') None soup))"
  by (simp add: fill_article_with_text_def foldl_append_get_text)

lemma str_split_not_Nil: "str_split sep s \<noteq> []"
  by (induction s) (auto split: list.splits)

lemma str_split_first:
  "str_split sep s = seg # segs \<Longrightarrow> seg = takeWhile (\<lambda>c. c \<noteq> sep) s"
  by (induction s arbitrary: seg segs)
     (auto simp: str_split_not_Nil split: list.splits if_splits)

lemma fill_meta_Some:
  assumes "find_first (S ''title'') None soup = Some t"
  shows "\<exists>a'. fill_article_with_meta_information soup a = Inr a'
           \<and> a_title a' = str_strip (takeWhile (\<lambda>c. c \<noteq> EM_DASH) (get_text t))
           \<and> a_text a' = a_text a \<and> a_url a' = a_url a
           \<and> a_article_id a' = a_article_id a"
proof -
  obtain seg segs where s: "str_split EM_DASH (get_text t) = seg # segs"
    using str_split_not_Nil by (cases "str_split EM_DASH (get_text t)") auto
  from str_split_first[OF s] have "seg = takeWhile (\<lambda>c. c \<noteq> EM_DASH) (get_text t)" .
  with s assms show ?thesis
    by (simp add: fill_article_with_meta_information_def Let_def split: option.splits)
qed

lemma fill_meta_None:
  "find_first (S ''title'') None soup = None \<Longrightarrow>
   fill_article_with_meta_information soup a = Inl AttributeError"
  by (simp add: fill_article_with_meta_information_def)

lemma fill_meta_Inr_text:
  assumes "fill_article_with_meta_information soup a = Inr a'"
  shows "a_text a' = a_text a"
proof (cases "find_first (S ''title'') None soup")
  case None
  with assms show ?thesis by (simp add: fill_meta_None)
next
  case (Some t)
  from fill_meta_Some[OF Some, of a] assms show ?thesis by auto
qed

lemma parse_Inr:
  assumes "parse w p reqs = (Inr p1, reqs1)"
  shows "\<exists>soup. w (full_url p) = Inr soup \<and> reqs1 = reqs @ [full_url p]
           \<and> full_url p1 = full_url p
           \<and> find_first (S ''title'') None soup \<noteq> None
           \<and> a_text (article p1)
              = a_text (article p) @ concat (map get_text (find_all (S ''p'') None soup))"
proof (cases "w (full_url p)")
  case (Inl e)
  with assms show ?thesis by (simp add: parse_def make_request_def)
next
  case (Inr soup)
  with assms obtain a where
    a: "fill_article_with_meta_information soup (fill_article_with_text soup (article p)) = Inr a"
    and p1: "p1 = p\<lparr>article := a\<rparr>" and r: "reqs1 = reqs @ [full_url p]"
    by (auto simp: parse_def make_request_def split: sum.splits)
  from a have t: "find_first (S ''title'') None soup \<noteq> None"
    using fill_meta_None[of soup] by (cases "find_first (S ''title'') None soup") auto
  from fill_meta_Inr_text[OF a] p1 r Inr t show ?thesis
    by (simp add: a_text_fill_article_with_text)
qed

lemma parse_succeeds:
  assumes "w (full_url p) = Inr soup" "find_first (S ''title'') None soup = Some t"
  shows "\<exists>p1. parse w p reqs = (Inr p1, reqs @ [full_url p])"
proof -
  from fill_meta_Some[OF assms(2), of "fill_article_with_text soup (article p)"]
  obtain a where
    "fill_article_with_meta_information soup (fill_article_with_text soup (article p)) = Inr a"
    by blast
  with assms(1) show ?thesis by (simp add: parse_def make_request_def)
qed

text \<open>
  C6. \<open>_fill_article_with_text\<close> appends to the text of the article the text of every
  paragraph of the document, in document order and with nothing between them; it never
  raises. After \<open>parse\<close> on a new parser the text is that concatenation: paragraphs
  \<open>Hello \<close> and \<open>world.\<close> give \<open>Hello world.\<close>, and a document with a title and no
  paragraph is parsed without an exception and leaves the text empty.
\<close>

theorem text_is_concatenation_of_paragraphs:
  "a_text (fill_article_with_text soup a)
     = a_text a @ concat (map get_text (find_all (S ''p'') None soup))
   \<and> a_text (fill_article_with_text soup (Article_init u i))
     = concat (map get_text (find_all (S ''p'') None soup))
   \<and> (parse w (HTMLParser_init u i cfg) reqs = (Inr p1, reqs1) \<and> w u = Inr soup
      \<longrightarrow> a_text (article p1) = concat (map get_text (find_all (S ''p'') None soup)))
   \<and> (parse w (HTMLParser_init u i cfg) reqs = (Inr p1, reqs1) \<and> w u = Inr soup
        \<and> map get_text (find_all (S ''p'') None soup) = [S ''Hello '', S ''world.'']
      \<longrightarrow> a_text (article p1) = S ''Hello world.'')
   \<and> (w u = Inr soup \<and> find_first (S ''title'') None soup = Some t
        \<and> find_all (S ''p'') None soup = []
      \<longrightarrow> (\<exists>p2. parse w (HTMLParser_init u i cfg) reqs = (Inr p2, reqs @ [u])
             \<and> a_text (article p2) = []))"
proof (intro conjI impI)
  show "a_text (fill_article_with_text soup a)
     = a_text a @ concat (map get_text (find_all (S ''p'') None soup))"
    by (rule a_text_fill_article_with_text)
  show "a_text (fill_article_with_text soup (Article_init u i))
     = concat (map get_text (find_all (S ''p'') None soup))"
    by (simp add: a_text_fill_article_with_text Article_init_def)
next
  assume h: "parse w (HTMLParser_init u i cfg) reqs = (Inr p1, reqs1) \<and> w u = Inr soup"
  from parse_Inr[of w "HTMLParser_init u i cfg" reqs p1 reqs1] h
  show "a_text (article p1) = concat (map get_text (find_all (S ''p'') None soup))"
    by (auto simp: HTMLParser_init_def Article_init_def)
next
  assume h: "parse w (HTMLParser_init u i cfg) reqs = (Inr p1, reqs1) \<and> w u = Inr soup
        \<and> map get_text (find_all (S ''p'') None soup) = [S ''Hello '', S ''world.'']"
  from parse_Inr[of w "HTMLParser_init u i cfg" reqs p1 reqs1] h
  show "a_text (article p1) = S ''Hello world.''"
    by (auto simp: HTMLParser_init_def Article_init_def S_def)
next
  assume h: "w u = Inr soup \<and> find_first (S ''title'') None soup = Some t
        \<and> find_all (S ''p'') None soup = []"
  then obtain p2 where p: "parse w (HTMLParser_init u i cfg) reqs = (Inr p2, reqs @ [u])"
    using parse_succeeds[of w "HTMLParser_init u i cfg" soup t reqs]
    by (auto simp: HTMLParser_init_def)
  from parse_Inr[OF p] h have "a_text (article p2) = []"
    by (auto simp: HTMLParser_init_def Article_init_def)
  with p show "\<exists>p2. parse w (HTMLParser_init u i cfg) reqs = (Inr p2, reqs @ [u])
             \<and> a_text (article p2) = []"
    by blast
qed
lemma parse_hello_world:
  "parse (\<lambda>u. Inr (article_page (S ''News'') None [S ''Hello '', S ''world.'']))
     (HTMLParser_init (Some (S ''/a'')) 1 (example_config 3 [])) []
   = (Inr ((HTMLParser_init (Some (S ''/a'')) 1 (example_config 3 []))
        \<lparr>article := \<lparr>a_url = Some (S ''/a''), a_article_id = 1, a_title = S ''News'',
                      a_author = PList (iter_str (S ''NOT FOUND'')),
                      a_text = S ''Hello world.''\<rparr>\<rparr>),
      [Some (S ''/a'')])"
  by (simp add: parse_def make_request_def fill_article_with_meta_information_def
        fill_article_with_text_def find_first_def find_all_def article_page_def
        HTMLParser_init_def Article_init_def S_def EM_DASH_def str_strip_def py_isspace_def
        class_matches_def iter_str_def)

lemma article_page_queries:
  "find_first (S ''title'') None (article_page (S ''News'') None [])
     = Some (Tag (S ''title'') [] None [NavigableString (S ''News'')])"
  "find_all (S ''p'') None (article_page (S ''News'') None []) = []"
  "map get_text (find_all (S ''p'') None
      (article_page (S ''News'') None [S ''Hello '', S ''world.'']))
     = [S ''Hello '', S ''world.'']"
  by (simp_all add: find_first_def find_all_def article_page_def S_def)

theorem text_is_concatenation_of_paragraphs_witness:
  "a_text (article ((HTMLParser_init (Some (S ''/a'')) 1 (example_config 3 []))
        \<lparr>article := \<lparr>a_url = Some (S ''/a''), a_article_id = 1, a_title = S ''News'',
                      a_author = PList (iter_str (S ''NOT FOUND'')),
                      a_text = S ''Hello world.''\<rparr>\<rparr>))
     = S ''Hello world.''
   \<and> (\<exists>p2. parse (\<lambda>u. Inr (article_page (S ''News'') None []))
              (HTMLParser_init (Some (S ''/a'')) 1 (example_config 3 [])) []
            = (Inr p2, [Some (S ''/a'')])
          \<and> a_text (article p2) = [])"
proof -
  have 1: "a_text (article ((HTMLParser_init (Some (S ''/a'')) 1 (example_config 3 []))
        \<lparr>article := \<lparr>a_url = Some (S ''/a''), a_article_id = 1, a_title = S ''News'',
                      a_author = PList (iter_str (S ''NOT FOUND'')),
                      a_text = S ''Hello world.''\<rparr>\<rparr>))
     = S ''Hello world.''"
    using text_is_concatenation_of_paragraphs
      [where w = "\<lambda>u. Inr (article_page (S ''News'') None [S ''Hello '', S ''world.''])"
         and u = "Some (S ''/a'')" and i = 1 and cfg = "example_config 3 []" and reqs = "[]"
         and soup = "article_page (S ''News'') None [S ''Hello '', S ''world.'']"
         and ?p1.0 = "(HTMLParser_init (Some (S ''/a'')) 1 (example_config 3 []))
            \<lparr>article := \<lparr>a_url = Some (S ''/a''), a_article_id = 1, a_title = S ''News'',
                      a_author = PList (iter_str (S ''NOT FOUND'')),
                      a_text = S ''Hello world.''\<rparr>\<rparr>"
         and ?reqs1.0 = "[Some (S ''/a'')]"]
      parse_hello_world article_page_queries(3)
    by simp
  have 2: "\<exists>p2. parse (\<lambda>u. Inr (article_page (S ''News'') None []))
              (HTMLParser_init (Some (S ''/a'')) 1 (example_config 3 [])) []
            = (Inr p2, [Some (S ''/a'')])
          \<and> a_text (article p2) = []"
    using text_is_concatenation_of_paragraphs
      [where w = "\<lambda>u. Inr (article_page (S ''News'') None [])"
         and u = "Some (S ''/a'')" and i = 1 and cfg = "example_config 3 []" and reqs = "[]"
         and soup = "article_page (S ''News'') None []"
         and t = "Tag (S ''title'') [] None [NavigableString (S ''News'')]"]
      article_page_queries(1,2)
    by simp
  from 1 2 show ?thesis by blast
qed

text \<open>
  C10. \<open>parse\<close> appends to the text the article already has. When a parse on a new
  parser succeeds and leaves the text \<open>T\<close>, a second parse on the same parser (the site
  answering as before) succeeds too and leaves \<open>T\<close> twice; unless \<open>T\<close> is empty, the
  second parse has changed the article.
\<close>

theorem parse_twice_doubles_text:
  "parse w (HTMLParser_init u i cfg) reqs = (Inr p1, reqs1)
   \<longrightarrow> (\<exists>p2. parse w p1 reqs1 = (Inr p2, reqs1 @ [u])
          \<and> a_text (article p2) = a_text (article p1) @ a_text (article p1)
          \<and> (a_text (article p1) \<noteq> [] \<longrightarrow> article p2 \<noteq> article p1))"
proof
  assume h: "parse w (HTMLParser_init u i cfg) reqs = (Inr p1, reqs1)"
  from parse_Inr[OF h] obtain soup where
    w: "w u = Inr soup" and f: "full_url p1 = u"
    and t: "find_first (S ''title'') None soup \<noteq> None"
    and x1: "a_text (article p1) = concat (map get_text (find_all (S ''p'') None soup))"
    by (auto simp: HTMLParser_init_def Article_init_def)
  from t obtain tt where tt: "find_first (S ''title'') None soup = Some tt" by auto
  from parse_succeeds[of w p1 soup tt reqs1] w f tt
  obtain p2 where p2: "parse w p1 reqs1 = (Inr p2, reqs1 @ [u])" by auto
  from parse_Inr[OF p2] w f x1
  have x2: "a_text (article p2) = a_text (article p1) @ a_text (article p1)" by auto
  then have "a_text (article p1) \<noteq> [] \<longrightarrow> article p2 \<noteq> article p1" by auto
  with p2 x2 show "\<exists>p2. parse w p1 reqs1 = (Inr p2, reqs1 @ [u])
          \<and> a_text (article p2) = a_text (article p1) @ a_text (article p1)
          \<and> (a_text (article p1) \<noteq> [] \<longrightarrow> article p2 \<noteq> article p1)"
    by blast
qed

theorem parse_twice_doubles_text_witness:
  "\<exists>p2. parse (\<lambda>u. Inr (article_page (S ''News'') None [S ''Hello '', S ''world.'']))
          ((HTMLParser_init (Some (S ''/a'')) 1 (example_config 3 []))
             \<lparr>article := \<lparr>a_url = Some (S ''/a''), a_article_id = 1, a_title = S ''News'',
                      a_author = PList (iter_str (S ''NOT FOUND'')),
                      a_text = S ''Hello world.''\<rparr>\<rparr>)
          [Some (S ''/a'')]
        = (Inr p2, [Some (S ''/a''), Some (S ''/a'')])
      \<and> a_text (article p2) = S ''Hello world.Hello world.''"
  using parse_twice_doubles_text
      [where w = "\<lambda>u. Inr (article_page (S ''News'') None [S ''Hello '', S ''world.''])"
         and u = "Some (S ''/a'')" and i = 1 and cfg = "example_config 3 []" and reqs = "[]"
         and ?p1.0 = "(HTMLParser_init (Some (S ''/a'')) 1 (example_config 3 []))
            \<lparr>article := \<lparr>a_url = Some (S ''/a''), a_article_id = 1, a_title = S ''News'',
                      a_author = PList (iter_str (S ''NOT FOUND'')),
                      a_text = S ''Hello world.''\<rparr>\<rparr>"
         and ?reqs1.0 = "[Some (S ''/a'')]"]
      parse_hello_world
  by (auto simp: S_def)
lemma parse_Inr_title:
  assumes "parse w p reqs = (Inr p1, reqs1)" "w (full_url p) = Inr soup"
    "find_first (S ''title'') None soup = Some t"
  shows "a_title (article p1) = str_strip (takeWhile (\<lambda>c. c \<noteq> EM_DASH) (get_text t))"
proof -
  from assms(1,2) obtain a where
    a: "fill_article_with_meta_information soup (fill_article_with_text soup (article p)) = Inr a"
    and p1: "p1 = p\<lparr>article := a\<rparr>"
    by (auto simp: parse_def make_request_def split: sum.splits)
  from fill_meta_Some[OF assms(3), of "fill_article_with_text soup (article p)"] a p1
  show ?thesis by auto
qed

lemma strip_headline:
  "str_strip (takeWhile (\<lambda>c. c \<noteq> EM_DASH) (S ''Headline Text '' @ EM_DASH # S '' Site Name''))
     = S ''Headline Text''"
  by (simp add: str_strip_def py_isspace_def EM_DASH_def S_def)

text \<open>
  C5. When the document has a title element, the title of the article is the text of
  the first one up to its first em dash, with the white space at both ends removed;
  the text \<open>Headline Text \<emdash> Site Name\<close> gives \<open>Headline Text\<close>, from
  \<open>_fill_article_with_meta_information\<close> and from a successful \<open>parse\<close>.
\<close>

theorem title_is_first_segment_stripped:
  "(find_first (S ''title'') None soup = Some t
    \<longrightarrow> (\<exists>a'. fill_article_with_meta_information soup a = Inr a'
           \<and> a_title a' = str_strip (takeWhile (\<lambda>c. c \<noteq> EM_DASH) (get_text t))))
   \<and> (find_first (S ''title'') None soup = Some t
        \<and> get_text t = S ''Headline Text '' @ EM_DASH # S '' Site Name''
    \<longrightarrow> (\<exists>a'. fill_article_with_meta_information soup a = Inr a'
           \<and> a_title a' = S ''Headline Text''))
   \<and> (find_first (S ''title'') None soup = Some t
        \<and> get_text t = S ''Headline Text '' @ EM_DASH # S '' Site Name''
        \<and> w u = Inr soup \<and> parse w (HTMLParser_init u i cfg) reqs = (Inr p1, reqs1)
    \<longrightarrow> a_title (article p1) = S ''Headline Text'')"
proof (intro conjI impI)
  assume "find_first (S ''title'') None soup = Some t"
  from fill_meta_Some[OF this, of a]
  show "\<exists>a'. fill_article_with_meta_information soup a = Inr a'
           \<and> a_title a' = str_strip (takeWhile (\<lambda>c. c \<noteq> EM_DASH) (get_text t))"
    by blast
next
  assume h: "find_first (S ''title'') None soup = Some t
        \<and> get_text t = S ''Headline Text '' @ EM_DASH # S '' Site Name''"
  then have f: "find_first (S ''title'') None soup = Some t" by simp
  from fill_meta_Some[OF f, of a] h strip_headline
  show "\<exists>a'. fill_article_with_meta_information soup a = Inr a'
           \<and> a_title a' = S ''Headline Text''"
    by auto
next
  assume h: "find_first (S ''title'') None soup = Some t
        \<and> get_text t = S ''Headline Text '' @ EM_DASH # S '' Site Name''
        \<and> w u = Inr soup \<and> parse w (HTMLParser_init u i cfg) reqs = (Inr p1, reqs1)"
  then have "a_title (article p1)
      = str_strip (takeWhile (\<lambda>c. c \<noteq> EM_DASH) (get_text t))"
    using parse_Inr_title[of w "HTMLParser_init u i cfg" reqs p1 reqs1 soup t]
    by (simp add: HTMLParser_init_def)
  with h strip_headline show "a_title (article p1) = S ''Headline Text''" by simp
qed

lemma headline_page_title:
  "find_first (S ''title'') None
     (article_page (S ''Headline Text '' @ EM_DASH # S '' Site Name'') None [])
   = Some (Tag (S ''title'') [] None
            [NavigableString (S ''Headline Text '' @ EM_DASH # S '' Site Name'')])"
  by (simp add: find_first_def find_all_def article_page_def S_def)

lemma parse_headline_page:
  "parse (\<lambda>u. Inr (article_page (S ''Headline Text '' @ EM_DASH # S '' Site Name'') None []))
     (HTMLParser_init (Some (S ''/a'')) 1 (example_config 3 [])) []
   = (Inr ((HTMLParser_init (Some (S ''/a'')) 1 (example_config 3 []))
        \<lparr>article := \<lparr>a_url = Some (S ''/a''), a_article_id = 1,
                      a_title = S ''Headline Text'',
                      a_author = PList (iter_str (S ''NOT FOUND'')),
                      a_text = []\<rparr>\<rparr>),
      [Some (S ''/a'')])"
  by (simp add: parse_def make_request_def fill_article_with_meta_information_def
        fill_article_with_text_def find_first_def find_all_def article_page_def
        HTMLParser_init_def Article_init_def S_def EM_DASH_def str_strip_def py_isspace_def
        class_matches_def iter_str_def)

theorem title_is_first_segment_stripped_witness:
  "(\<exists>a'. fill_article_with_meta_information
           (article_page (S ''Headline Text '' @ EM_DASH # S '' Site Name'') None [])
           (Article_init (Some (S ''/a'')) 1) = Inr a'
        \<and> a_title a' = S ''Headline Text'')
   \<and> a_title (article ((HTMLParser_init (Some (S ''/a'')) 1 (example_config 3 []))
        \<lparr>article := \<lparr>a_url = Some (S ''/a''), a_article_id = 1,
                      a_title = S ''Headline Text'',
                      a_author = PList (iter_str (S ''NOT FOUND'')),
                      a_text = []\<rparr>\<rparr>)) = S ''Headline Text''"
  using title_is_first_segment_stripped
      [where soup = "article_page (S ''Headline Text '' @ EM_DASH # S '' Site Name'') None []"
         and t = "Tag (S ''title'') [] None
            [NavigableString (S ''Headline Text '' @ EM_DASH # S '' Site Name'')]"
         and a = "Article_init (Some (S ''/a'')) 1"
         and w = "\<lambda>u. Inr (article_page (S ''Headline Text '' @ EM_DASH # S '' Site Name'') None [])"
         and u = "Some (S ''/a'')" and i = 1 and cfg = "example_config 3 []" and reqs = "[]"
         and ?p1.0 = "(HTMLParser_init (Some (S ''/a'')) 1 (example_config 3 []))
            \<lparr>article := \<lparr>a_url = Some (S ''/a''), a_article_id = 1,
                      a_title = S ''Headline Text'',
                      a_author = PList (iter_str (S ''NOT FOUND'')),
                      a_text = []\<rparr>\<rparr>"
         and ?reqs1.0 = "[Some (S ''/a'')]"]
    headline_page_title parse_headline_page
  by simp
lemma fill_meta_author:
  assumes "fill_article_with_meta_information soup a = Inr a'"
  shows "a_author a' =
     (case find_first (S ''p'') (Some (S ''bio-name'')) soup of
        None \<Rightarrow> PList (iter_str (S ''NOT FOUND''))
      | Some author \<Rightarrow> PList (iter_node author))"
  using assms
  by (auto simp: fill_article_with_meta_information_def Let_def
        split: option.splits list.splits)

text \<open>
  C1. What \<open>_fill_article_with_meta_information\<close> leaves in the author field is a
  list, never a string: without a paragraph of class \<open>bio-name\<close> the list of the nine
  characters of \<open>NOT FOUND\<close>, each a string of length one; with such a paragraph the
  list of its children. The field is neither the string \<open>NOT FOUND\<close> nor the text of
  the paragraph.
\<close>

theorem author_field_is_a_list:
  "fill_article_with_meta_information soup a = Inr a'
   \<longrightarrow> (find_first (S ''p'') (Some (S ''bio-name'')) soup = None
          \<longrightarrow> a_author a' = PList (map (\<lambda>c. PStr [c]) (S ''NOT FOUND''))
              \<and> a_author a' \<noteq> PStr (S ''NOT FOUND''))
       \<and> (find_first (S ''p'') (Some (S ''bio-name'')) soup = Some author
          \<longrightarrow> a_author a' = PList (iter_node author)
              \<and> a_author a' \<noteq> PStr (get_text author))"
proof (intro impI conjI)
  assume h: "fill_article_with_meta_information soup a = Inr a'"
  {
    assume n: "find_first (S ''p'') (Some (S ''bio-name'')) soup = None"
    with fill_meta_author[OF h]
    show l: "a_author a' = PList (map (\<lambda>c. PStr [c]) (S ''NOT FOUND''))"
      by (simp add: iter_str_def)
    then show "a_author a' \<noteq> PStr (S ''NOT FOUND'')" by simp
  next
    assume s: "find_first (S ''p'') (Some (S ''bio-name'')) soup = Some author"
    with fill_meta_author[OF h]
    show l: "a_author a' = PList (iter_node author)" by simp
    then show "a_author a' \<noteq> PStr (get_text author)" by simp
  }
qed

theorem author_field_is_a_list_witness:
  "a_author \<lparr>a_url = Some (S ''/a''), a_article_id = 1, a_title = S ''News'',
       a_author = PList [PStr (S ''N''), PStr (S ''O''), PStr (S ''T''), PStr (S '' ''),
          PStr (S ''F''), PStr (S ''O''), PStr (S ''U''), PStr (S ''N''), PStr (S ''D'')],
       a_text = []\<rparr> \<noteq> PStr (S ''NOT FOUND'')
   \<and> fill_article_with_meta_information (article_page (S ''News'') None [])
       (Article_init (Some (S ''/a'')) 1)
     = Inr \<lparr>a_url = Some (S ''/a''), a_article_id = 1, a_title = S ''News'',
       a_author = PList [PStr (S ''N''), PStr (S ''O''), PStr (S ''T''), PStr (S '' ''),
          PStr (S ''F''), PStr (S ''O''), PStr (S ''U''), PStr (S ''N''), PStr (S ''D'')],
       a_text = []\<rparr>
   \<and> a_author \<lparr>a_url = Some (S ''/a''), a_article_id = 1, a_title = S ''News'',
       a_author = PList [PStr (S ''Ivan'')], a_text = []\<rparr> \<noteq> PStr (S ''Ivan'')
   \<and> fill_article_with_meta_information (article_page (S ''News'') (Some (S ''Ivan'')) [])
       (Article_init (Some (S ''/a'')) 1)
     = Inr \<lparr>a_url = Some (S ''/a''), a_article_id = 1, a_title = S ''News'',
       a_author = PList [PStr (S ''Ivan'')], a_text = []\<rparr>"
proof -
  have e1: "fill_article_with_meta_information (article_page (S ''News'') None [])
       (Article_init (Some (S ''/a'')) 1)
     = Inr \<lparr>a_url = Some (S ''/a''), a_article_id = 1, a_title = S ''News'',
       a_author = PList [PStr (S ''N''), PStr (S ''O''), PStr (S ''T''), PStr (S '' ''),
          PStr (S ''F''), PStr (S ''O''), PStr (S ''U''), PStr (S ''N''), PStr (S ''D'')],
       a_text = []\<rparr>"
    by (simp add: fill_article_with_meta_information_def find_first_def find_all_def
          article_page_def Article_init_def S_def EM_DASH_def str_strip_def py_isspace_def
          class_matches_def iter_str_def)
  have e2: "fill_article_with_meta_information (article_page (S ''News'') (Some (S ''Ivan'')) [])
       (Article_init (Some (S ''/a'')) 1)
     = Inr \<lparr>a_url = Some (S ''/a''), a_article_id = 1, a_title = S ''News'',
       a_author = PList [PStr (S ''Ivan'')], a_text = []\<rparr>"
    by (simp add: fill_article_with_meta_information_def find_first_def find_all_def
          article_page_def Article_init_def S_def EM_DASH_def str_strip_def py_isspace_def
          class_matches_def iter_str_def)
  have n1: "find_first (S ''p'') (Some (S ''bio-name'')) (article_page (S ''News'') None [])
      = None"
    by (simp add: find_first_def find_all_def article_page_def S_def class_matches_def)
  have n2: "find_first (S ''p'') (Some (S ''bio-name''))
        (article_page (S ''News'') (Some (S ''Ivan'')) [])
      = Some (Tag (S ''p'') [S ''bio-name''] None [NavigableString (S ''Ivan'')])"
    by (simp add: find_first_def find_all_def article_page_def S_def class_matches_def)
  from mp[OF author_field_is_a_list e1] n1
  have 1: "a_author \<lparr>a_url = Some (S ''/a''), a_article_id = 1, a_title = S ''News'',
       a_author = PList [PStr (S ''N''), PStr (S ''O''), PStr (S ''T''), PStr (S '' ''),
          PStr (S ''F''), PStr (S ''O''), PStr (S ''U''), PStr (S ''N''), PStr (S ''D'')],
       a_text = []\<rparr> \<noteq> PStr (S ''NOT FOUND'')"
    by simp
  from mp[OF author_field_is_a_list e2,
      of "Tag (S ''p'') [S ''bio-name''] None [NavigableString (S ''Ivan'')]"] n2
  have 2: "a_author \<lparr>a_url = Some (S ''/a''), a_article_id = 1, a_title = S ''News'',
       a_author = PList [PStr (S ''Ivan'')], a_text = []\<rparr> \<noteq> PStr (S ''Ivan'')"
    by simp
  from 1 e1 2 e2 show ?thesis by simp
qed
section \<open>The driver\<close>











section \<open>The output area\<close>





end
